theory Spec2Isabelle
  imports Main "HOL-Library.Word"
begin

unbundle bit_operations_syntax

section \<open>Go values and \<open>encoding/binary\<close>\<close>

text \<open>
  A Go \<open>string\<close> and a \<open>[]byte\<close> are sequences of bytes; the length of a string is its
  number of bytes (its UTF-8 byte count).
\<close>

type_synonym byte = "8 word"
type_synonym gostring = "byte list"

text \<open>
  The dynamic values (\<open>any\<close>) that reach \<open>WriteMessage\<close> and \<open>DataRow\<close>: the fixed-size
  integers, the platform-sized \<open>int\<close> (64 bits), and strings. An untyped constant such as
  the \<open>1\<close> of \<open>"a": 1\<close> stored in a \<open>map[string]any\<close> has the type \<open>int\<close>.
\<close>

datatype any =
    GByte byte
  | GInt16 "16 word"
  | GInt32 "32 word"
  | GInt64 "64 word"
  | GInt "64 word"
  | GString gostring

text \<open>
  \<open>binary.BigEndian.PutUint16\<close>, \<open>PutUint32\<close> and \<open>PutUint64\<close>: the bytes of a value, most
  significant first.
\<close>

definition PutUint16 :: "16 word \<Rightarrow> byte list" where
  "PutUint16 v = [ucast (drop_bit 8 v), ucast v]"

definition PutUint32 :: "32 word \<Rightarrow> byte list" where
  "PutUint32 v = [ucast (drop_bit 24 v), ucast (drop_bit 16 v), ucast (drop_bit 8 v), ucast v]"

definition PutUint64 :: "64 word \<Rightarrow> byte list" where
  "PutUint64 v =
     [ucast (drop_bit 56 v), ucast (drop_bit 48 v), ucast (drop_bit 40 v), ucast (drop_bit 32 v),
      ucast (drop_bit 24 v), ucast (drop_bit 16 v), ucast (drop_bit 8 v), ucast v]"

text \<open>
  \<open>binary.Write(buf, binary.BigEndian, v)\<close> on a buffer: the bytes appended, or \<open>None\<close>
  when the call returns an error and appends nothing. The library accepts fixed-size
  values only; \<open>int\<close> and \<open>string\<close> are not fixed-size.
\<close>

fun binary_Write :: "any \<Rightarrow> byte list option" where
  "binary_Write (GByte b) = Some [b]"
| "binary_Write (GInt16 w) = Some (PutUint16 w)"
| "binary_Write (GInt32 w) = Some (PutUint32 w)"
| "binary_Write (GInt64 w) = Some (PutUint64 w)"
| "binary_Write (GInt w) = None"
| "binary_Write (GString s) = None"

text \<open>\<open>binary.BigEndian.Uint32\<close> on the four bytes \<open>b[0]\<close>, \<open>b[1]\<close>, \<open>b[2]\<close>, \<open>b[3]\<close>.\<close>

definition Uint32 :: "byte \<Rightarrow> byte \<Rightarrow> byte \<Rightarrow> byte \<Rightarrow> 32 word" where
  "Uint32 b0 b1 b2 b3 =
     ucast b3 OR push_bit 8 (ucast b2) OR push_bit 16 (ucast b1) OR push_bit 24 (ucast b0)"

section \<open>Errors and the connection\<close>

datatype error =
    EOF
  | ErrUnexpectedEOF
  | BufferUnderflow int int
  | UnknownProtocolVersion "32 word"
  | ExpectedQ byte
  | Disconnect
  | WriteError
  | PanicIndexOutOfRange
  | PanicTypeAssertion

text \<open>
  \<open>PGProtocol\<close> holds the client connection. The connection is the bytes the client has
  sent and not yet been read (\<open>inp\<close>; the client closes the stream after them), the bytes
  written to the client (\<open>out\<close>), and the number of bytes the transport still takes before
  a write fails (\<open>wcap\<close>; \<open>None\<close> when it never fails).
\<close>

record PGProtocol =
  inp :: "byte list"
  out :: "byte list"
  wcap :: "nat option"

definition can_write :: "nat \<Rightarrow> PGProtocol \<Rightarrow> bool" where
  "can_write n pg = (case wcap pg of None \<Rightarrow> True | Some c \<Rightarrow> n \<le> c)"

definition wrote :: "byte list \<Rightarrow> PGProtocol \<Rightarrow> PGProtocol" where
  "wrote b pg = pg\<lparr>out := out pg @ b, wcap := map_option (\<lambda>c. c - length b) (wcap pg)\<rparr>"

text \<open>\<open>pg.Write(b)\<close>: the number of bytes written, or the transport's error.\<close>

definition Write :: "byte list \<Rightarrow> PGProtocol \<Rightarrow> (error + nat) \<times> PGProtocol" where
  "Write b pg =
     (case wcap pg of
        None \<Rightarrow> (Inr (length b), wrote b pg)
      | Some c \<Rightarrow>
          if length b \<le> c then (Inr (length b), wrote b pg)
          else (Inl WriteError, pg\<lparr>out := out pg @ take c b, wcap := Some 0\<rparr>))"

section \<open>Server messages\<close>

text \<open>The loop of \<open>WriteMessage\<close> over \<open>parts[1:]\<close>; the error of \<open>binary.Write\<close> is dropped.\<close>

fun write_parts :: "any list \<Rightarrow> byte list \<Rightarrow> byte list" where
  "write_parts [] contentsBuf = contentsBuf"
| "write_parts (part # parts) contentsBuf =
     write_parts parts
       (case binary_Write part of None \<Rightarrow> contentsBuf | Some bs \<Rightarrow> contentsBuf @ bs)"

text \<open>
  The bytes \<open>WriteMessage\<close> hands to the connection. \<open>parts[0]\<close> panics on an empty
  argument list, and \<open>.(byte)\<close> panics when the first part is not a byte.
\<close>

definition msgBuf :: "any list \<Rightarrow> error + byte list" where
  "msgBuf parts =
     (case parts of
        [] \<Rightarrow> Inl PanicIndexOutOfRange
      | GByte msgType # ps \<Rightarrow>
          (let contents = write_parts ps []
           in Inr (msgType # PutUint32 (word_of_nat (length contents + 4)) @ contents))
      | _ # ps \<Rightarrow> Inl PanicTypeAssertion)"

definition WriteMessage :: "any list \<Rightarrow> PGProtocol \<Rightarrow> (error + nat) \<times> PGProtocol" where
  "WriteMessage parts pg =
     (case msgBuf parts of Inl e \<Rightarrow> (Inl e, pg) | Inr b \<Rightarrow> Write b pg)"

definition AuthenticationOk :: "PGProtocol \<Rightarrow> (error + nat) \<times> PGProtocol" where
  "AuthenticationOk pg = WriteMessage [GByte 0x52, GInt32 0] pg"

definition ReadyForQuery :: "PGProtocol \<Rightarrow> (error + nat) \<times> PGProtocol" where
  "ReadyForQuery pg = WriteMessage [GByte 0x5A, GByte 0x49] pg"

text \<open>
  A Go map is its entries, with distinct keys. A \<open>range\<close> over it visits every entry once,
  in an order the language leaves unspecified and the runtime varies from one loop to the
  next: the functions below take the entries in the order the loop visits them.
\<close>

type_synonym gomap = "(gostring \<times> any) list"

fun RowDescription_loop :: "gomap \<Rightarrow> any list \<Rightarrow> any list" where
  "RowDescription_loop [] parts = parts"
| "RowDescription_loop ((k, v) # es) parts =
     RowDescription_loop es
       (parts @ map GByte k @ [GByte 0]
          @ [GInt32 0, GInt16 0, GInt32 0, GInt16 (- 1), GInt32 0, GInt16 0])"

text \<open>
  \<open>RowDescription\<close>: \<open>visit\<close> is the order in which the \<open>range\<close> over \<open>data[0]\<close> yields its
  entries; \<open>data[0]\<close> panics on an empty result set.
\<close>

definition RowDescription ::
  "(gomap \<Rightarrow> gomap) \<Rightarrow> gomap list \<Rightarrow> PGProtocol \<Rightarrow> (error + nat) \<times> PGProtocol" where
  "RowDescription visit data pg =
     (case data of
        [] \<Rightarrow> (Inl PanicIndexOutOfRange, pg)
      | row0 # _ \<Rightarrow>
          WriteMessage
            (RowDescription_loop (visit row0)
               [GByte 0x54, GInt16 (word_of_nat (length row0))]) pg)"

text \<open>The value buffer \<open>vb\<close> of \<open>DataRow\<close> for one value.\<close>

definition vb :: "any \<Rightarrow> byte list" where
  "vb v =
     (case v of
        GString s \<Rightarrow> s @ [0]
      | _ \<Rightarrow> (case binary_Write v of None \<Rightarrow> [] | Some bs \<Rightarrow> bs))"

fun DataRow_loop :: "gomap \<Rightarrow> any list \<Rightarrow> any list" where
  "DataRow_loop [] parts = parts"
| "DataRow_loop ((k, v) # es) parts =
     DataRow_loop es
       (parts @ [GInt32 (word_of_nat (length (vb v)))] @ map GByte (vb v))"

definition DataRow ::
  "(gomap \<Rightarrow> gomap) \<Rightarrow> gomap \<Rightarrow> PGProtocol \<Rightarrow> (error + nat) \<times> PGProtocol" where
  "DataRow visit row pg =
     WriteMessage
       (DataRow_loop (visit row) [GByte 0x44, GInt16 (word_of_nat (length row))]) pg"

definition CommandComplete :: "gostring \<Rightarrow> PGProtocol \<Rightarrow> (error + nat) \<times> PGProtocol" where
  "CommandComplete tag pg = WriteMessage ([GByte 0x43] @ map GByte tag @ [GByte 0]) pg"

text \<open>
  For the statements about frames. A part is encodable when \<open>binary.Write\<close> accepts it;
  \<open>serialized\<close> is the payload the specification describes, the encodings of the fields
  in order.
\<close>

definition encodable :: "any \<Rightarrow> bool" where
  "encodable p = (binary_Write p \<noteq> None)"

definition serialized :: "any list \<Rightarrow> byte list" where
  "serialized ps = concat (map (the \<circ> binary_Write) ps)"

text \<open>
  The bytes of one value in a data row, as the loop of \<open>DataRow\<close> lays them out: the length
  of the value buffer as an \<open>int32\<close>, then the buffer; and those of a sequence of entries.
\<close>

definition value_field :: "any \<Rightarrow> byte list" where
  "value_field v = PutUint32 (word_of_nat (length (vb v))) @ vb v"

definition value_fields :: "gomap \<Rightarrow> byte list" where
  "value_fields es = concat (map (value_field \<circ> snd) es)"

section \<open>Reading client messages\<close>

definition StartupMessage :: "32 word" where
  "StartupMessage = 196608"

definition SSLRequest :: "32 word" where
  "SSLRequest = 80877103"

text \<open>
  \<open>ReadInt32\<close>: \<open>binary.Read\<close> fills four bytes with \<open>io.ReadFull\<close>, whose error is \<open>EOF\<close>
  when the stream ends before the first byte and \<open>ErrUnexpectedEOF\<close> when it ends after
  some of them.
\<close>

definition ReadInt32 :: "PGProtocol \<Rightarrow> (error + 32 word) \<times> PGProtocol" where
  "ReadInt32 pg =
     (case inp pg of
        b0 # b1 # b2 # b3 # rest \<Rightarrow> (Inr (Uint32 b0 b1 b2 b3), pg\<lparr>inp := rest\<rparr>)
      | [] \<Rightarrow> (Inl EOF, pg)
      | _ \<Rightarrow> (Inl ErrUnexpectedEOF, pg\<lparr>inp := []\<rparr>))"

text \<open>
  \<open>io.CopyN(buf, pg.clientConn, n)\<close> into an empty buffer: the buffer, the count and the
  error it returns. A count \<open>n \<le> 0\<close> reads nothing and returns \<open>(0, nil)\<close>; a stream that
  ends before \<open>n\<close> bytes gives the bytes read and \<open>EOF\<close>.
\<close>

definition CopyN :: "int \<Rightarrow> PGProtocol \<Rightarrow> (byte list \<times> int \<times> error option) \<times> PGProtocol" where
  "CopyN n pg =
     (if n \<le> 0 then (([], 0, None), pg)
      else if nat n \<le> length (inp pg)
      then ((take (nat n) (inp pg), n, None), pg\<lparr>inp := drop (nat n) (inp pg)\<rparr>)
      else ((inp pg, int (length (inp pg)), Some EOF), pg\<lparr>inp := []\<rparr>))"

text \<open>
  \<open>binary.Read(buf, binary.BigEndian, &protocolVersion)\<close> on the startup buffer: the
  value and the rest of the buffer.
\<close>

definition Read_uint32 :: "byte list \<Rightarrow> error + (32 word \<times> byte list)" where
  "Read_uint32 buf =
     (case buf of
        b0 # b1 # b2 # b3 # rest \<Rightarrow> Inr (Uint32 b0 b1 b2 b3, rest)
      | [] \<Rightarrow> Inl EOF
      | _ \<Rightarrow> Inl ErrUnexpectedEOF)"

text \<open>
  \<open>buf.ReadString(delim)\<close>: the line up to and including the delimiter, whether the
  buffer ended before a delimiter (the error \<open>io.EOF\<close>, the only one it returns), and the
  rest of the buffer.
\<close>

fun ReadString :: "byte \<Rightarrow> byte list \<Rightarrow> byte list \<times> bool \<times> byte list" where
  "ReadString delim [] = ([], True, [])"
| "ReadString delim (b # bs) =
     (if b = delim then ([b], False, bs)
      else (case ReadString delim bs of (line, eof, rest) \<Rightarrow> (b # line, eof, rest)))"

lemma ReadString_shorter:
  "ReadString delim buf = (line, False, rest) \<Longrightarrow> length rest < length buf"
  by (induction buf arbitrary: line) (auto split: if_splits prod.splits)

text \<open>The parameter loop of \<open>Startup\<close>: it reads strings until \<open>io.EOF\<close>.\<close>

function params_loop :: "byte list \<Rightarrow> byte list" where
  "params_loop buf =
     (case ReadString 0 buf of
        (line, eof, rest) \<Rightarrow> if eof then rest else params_loop rest)"
  by pat_completeness auto
termination
  by (relation "measure length") (auto dest: ReadString_shorter [OF sym])

declare params_loop.simps [simp del]

definition Startup :: "PGProtocol \<Rightarrow> (error + bool) \<times> PGProtocol" where
  "Startup pg =
     (case ReadInt32 pg of
        (Inl err, pg1) \<Rightarrow> (Inl err, pg1)
      | (Inr msgLength, pg1) \<Rightarrow>
          (let contentLength = sint (msgLength - 4) in
           case CopyN contentLength pg1 of
             ((buf, n, Some err), pg2) \<Rightarrow> (Inl err, pg2)
           | ((buf, n, None), pg2) \<Rightarrow>
               if n \<noteq> contentLength then (Inl (BufferUnderflow n contentLength), pg2)
               else
                 (case Read_uint32 buf of
                    Inl err \<Rightarrow> (Inl err, pg2)
                  | Inr (protocolVersion, buf1) \<Rightarrow>
                      if protocolVersion = SSLRequest then
                        (case Write [0x4E] pg2 of
                           (Inl err, pg3) \<Rightarrow> (Inl err, pg3)
                         | (Inr _, pg3) \<Rightarrow> (Inr False, pg3))
                      else if protocolVersion = StartupMessage then
                        (let buf2 = params_loop buf1 in (Inr True, pg2))
                      else (Inl (UnknownProtocolVersion protocolVersion), pg2))))"

definition ReadQuery :: "PGProtocol \<Rightarrow> (error + gostring) \<times> PGProtocol" where
  "ReadQuery pg =
     (case inp pg of
        [] \<Rightarrow> (Inl EOF, pg)
      | msgType # rest \<Rightarrow>
          (let pg0 = pg\<lparr>inp := rest\<rparr> in
           if msgType = 0x58 then (Inl Disconnect, pg0)
           else if msgType \<noteq> 0x51 then (Inl (ExpectedQ msgType), pg0)
           else
             (case ReadInt32 pg0 of
                (Inl err, pg1) \<Rightarrow> (Inl err, pg1)
              | (Inr msgLength, pg1) \<Rightarrow>
                  (let contentLength = sint (msgLength - 4) in
                   case CopyN contentLength pg1 of
                     ((buf, n, err), pg2) \<Rightarrow>
                       if n \<noteq> contentLength
                       then (Inl (BufferUnderflow n contentLength), pg2)
                       else (Inr buf, pg2)))))"

section \<open>The connection session\<close>

text \<open>Writing leaves the unread input alone; a read that succeeds consumes input.\<close>

lemma inp_Write: "Write b pg = (r, pg') \<Longrightarrow> inp pg' = inp pg"
  by (auto simp: Write_def wrote_def split: option.splits if_splits)

lemma inp_WriteMessage: "WriteMessage parts pg = (r, pg') \<Longrightarrow> inp pg' = inp pg"
  by (auto simp: WriteMessage_def split: sum.splits dest: inp_Write)

lemma inp_ReadyForQuery: "ReadyForQuery pg = (r, pg') \<Longrightarrow> inp pg' = inp pg"
  by (auto simp: ReadyForQuery_def dest: inp_WriteMessage)

lemma inp_CommandComplete: "CommandComplete tag pg = (r, pg') \<Longrightarrow> inp pg' = inp pg"
  by (auto simp: CommandComplete_def dest: inp_WriteMessage)

lemma inp_RowDescription: "RowDescription visit d pg = (r, pg') \<Longrightarrow> inp pg' = inp pg"
  by (auto simp: RowDescription_def split: list.splits dest: inp_WriteMessage)

lemma inp_ReadInt32: "ReadInt32 pg = (Inr w, pg1) \<Longrightarrow> length (inp pg1) < length (inp pg)"
  by (auto simp: ReadInt32_def split: list.splits)

lemma inp_CopyN: "CopyN n pg = (r, pg') \<Longrightarrow> length (inp pg') \<le> length (inp pg)"
  by (auto simp: CopyN_def split: if_splits)

lemma inp_Startup:
  assumes "Startup pg = (Inr ready, pg')"
  shows "length (inp pg') < length (inp pg)"
proof -
  obtain w pg1 where r: "ReadInt32 pg = (Inr w, pg1)"
    using assms by (cases "ReadInt32 pg") (auto simp: Startup_def split: sum.splits)
  obtain r2 pg2 where c: "CopyN (sint (w - 4)) pg1 = (r2, pg2)"
    by (cases "CopyN (sint (w - 4)) pg1") auto
  have "length (inp pg') \<le> length (inp pg2)"
    using assms r c
    by (auto simp: Startup_def Let_def split: prod.splits sum.splits option.splits if_splits
        dest: inp_Write)
  with inp_ReadInt32 [OF r] inp_CopyN [OF c] show ?thesis by simp
qed

lemma inp_ReadQuery:
  assumes "ReadQuery pg = (Inr q, pg')"
  shows "length (inp pg') < length (inp pg)"
proof -
  obtain t rest where i: "inp pg = t # rest"
    using assms by (cases "inp pg") (auto simp: ReadQuery_def)
  have "length (inp pg') \<le> length rest"
    using assms i
    by (auto simp: ReadQuery_def Let_def split: prod.splits sum.splits if_splits
        dest!: inp_ReadInt32 inp_CopyN)
  with i show ?thesis by simp
qed

text \<open>
  The session numbers the \<open>range\<close> loops over maps it runs; a \<open>ranger\<close> gives, for each
  number, the order in which that loop visits the entries of its map.
\<close>

type_synonym ranger = "nat \<Rightarrow> gomap \<Rightarrow> gomap"

text \<open>The result set of \<open>Loop\<close>: \<open>a\<close> is an \<open>int\<close>, \<open>b\<close> and \<open>c\<close> are strings.\<close>

definition data :: "gomap list" where
  "data =
     [[([0x61], GInt 1), ([0x62], GString [0x42, 0x31]), ([0x63], GString [0x43, 0x31])],
      [([0x61], GInt 2), ([0x62], GString [0x42, 0x32]), ([0x63], GString [0x43, 0x32])]]"

text \<open>The loop \<open>for _, row := range data\<close> of \<open>Loop\<close>, over a slice, in order.\<close>

fun DataRows :: "ranger \<Rightarrow> nat \<Rightarrow> gomap list \<Rightarrow> PGProtocol \<Rightarrow> error option \<times> PGProtocol" where
  "DataRows rg k [] pg = (None, pg)"
| "DataRows rg k (row # rows) pg =
     (case DataRow (rg k) row pg of
        (Inl err, pg1) \<Rightarrow> (Some err, pg1)
      | (Inr _, pg1) \<Rightarrow> DataRows rg (Suc k) rows pg1)"

lemma inp_DataRows: "DataRows rg k rows pg = (r, pg') \<Longrightarrow> inp pg' = inp pg"
  by (induction rows arbitrary: k pg)
     (auto simp: DataRow_def split: prod.splits sum.splits dest: inp_WriteMessage)

text \<open>The first loop of \<open>Loop\<close>: \<open>Startup\<close> until it reports ready.\<close>

function startup_loop :: "PGProtocol \<Rightarrow> error option \<times> PGProtocol" where
  "startup_loop pg =
     (case Startup pg of
        (Inl err, pg1) \<Rightarrow> (Some err, pg1)
      | (Inr ready, pg1) \<Rightarrow> if ready then (None, pg1) else startup_loop pg1)"
  by pat_completeness auto
termination
  by (relation "measure (\<lambda>pg. length (inp pg))") (auto dest: inp_Startup [OF sym])

text \<open>The second loop of \<open>Loop\<close>; \<open>k\<close> is the number of map loops run so far.\<close>

function query_loop :: "ranger \<Rightarrow> nat \<Rightarrow> PGProtocol \<Rightarrow> error option \<times> PGProtocol" where
  "query_loop rg k pg =
     (case ReadyForQuery pg of
        (Inl err, pg1) \<Rightarrow> (Some err, pg1)
      | (Inr _, pg1) \<Rightarrow>
          (case ReadQuery pg1 of
             (Inl err, pg2) \<Rightarrow> if err = Disconnect then (None, pg2) else (Some err, pg2)
           | (Inr q, pg2) \<Rightarrow>
               (case RowDescription (rg k) data pg2 of
                  (Inl err, pg3) \<Rightarrow> (Some err, pg3)
                | (Inr _, pg3) \<Rightarrow>
                    (case DataRows rg (Suc k) data pg3 of
                       (Some err, pg4) \<Rightarrow> (Some err, pg4)
                     | (None, pg4) \<Rightarrow>
                         (case CommandComplete [0x77, 0x68, 0x61, 0x74] pg4 of
                            (Inl err, pg5) \<Rightarrow> (Some err, pg5)
                          | (Inr _, pg5) \<Rightarrow> query_loop rg (Suc k + length data) pg5)))))"
  by pat_completeness auto
termination
  by (relation "measure (\<lambda>(rg, k, pg). length (inp pg))")
     (auto dest!: inp_ReadyForQuery [OF sym] inp_RowDescription [OF sym]
        inp_CommandComplete [OF sym] inp_DataRows [OF sym] inp_ReadQuery [OF sym])

declare startup_loop.simps [simp del] query_loop.simps [simp del]

definition Loop :: "ranger \<Rightarrow> PGProtocol \<Rightarrow> error option \<times> PGProtocol" where
  "Loop rg pg =
     (case startup_loop pg of
        (Some err, pg1) \<Rightarrow> (Some err, pg1)
      | (None, pg1) \<Rightarrow>
          (case AuthenticationOk pg1 of
             (Inl err, pg2) \<Rightarrow> (Some err, pg2)
           | (Inr _, pg2) \<Rightarrow> query_loop rg 0 pg2))"

section \<open>The client's parser\<close>

text \<open>
  Modelled from the spec: the client's side of the wire format, which is no code of the
  repository, for the round trip. The client reads a row-description and a data-row
  message as the wire format lays them out. A frame is a tag, a four-byte
  big-endian length that counts itself and the payload, and the payload. A row
  description is a two-byte field count, then for each field its null-terminated name and
  eighteen bytes of metadata. A data row is a two-byte field count, then for each field a
  four-byte length and that many bytes. \<open>None\<close> is a message the client cannot parse.
\<close>

definition Uint16 :: "byte \<Rightarrow> byte \<Rightarrow> 16 word" where
  "Uint16 b0 b1 = ucast b1 OR push_bit 8 (ucast b0)"

definition client_frame :: "byte \<Rightarrow> byte list \<Rightarrow> byte list option" where
  "client_frame tag msg =
     (case msg of
        t # b0 # b1 # b2 # b3 # rest \<Rightarrow>
          if t = tag \<and> sint (Uint32 b0 b1 b2 b3) = int (length rest) + 4 then Some rest else None
      | _ \<Rightarrow> None)"

fun client_cstring :: "byte list \<Rightarrow> (byte list \<times> byte list) option" where
  "client_cstring [] = None"
| "client_cstring (b # bs) =
     (if b = 0 then Some ([], bs)
      else (case client_cstring bs of None \<Rightarrow> None | Some (s, rest) \<Rightarrow> Some (b # s, rest)))"

fun client_names :: "nat \<Rightarrow> byte list \<Rightarrow> byte list list option" where
  "client_names 0 bs = (if bs = [] then Some [] else None)"
| "client_names (Suc n) bs =
     (case client_cstring bs of
        None \<Rightarrow> None
      | Some (name, rest) \<Rightarrow>
          if length rest < 18 then None
          else (case client_names n (drop 18 rest) of
                  None \<Rightarrow> None
                | Some names \<Rightarrow> Some (name # names)))"

fun client_values :: "nat \<Rightarrow> byte list \<Rightarrow> byte list list option" where
  "client_values 0 bs = (if bs = [] then Some [] else None)"
| "client_values (Suc n) bs =
     (case bs of
        b0 # b1 # b2 # b3 # rest \<Rightarrow>
          (let l = nat (sint (Uint32 b0 b1 b2 b3)) in
           if length rest < l then None
           else (case client_values n (drop l rest) of
                   None \<Rightarrow> None
                 | Some vs \<Rightarrow> Some (take l rest # vs)))
      | _ \<Rightarrow> None)"

definition client_row_description :: "byte list \<Rightarrow> byte list list option" where
  "client_row_description msg =
     (case client_frame 0x54 msg of
        Some (c0 # c1 # body) \<Rightarrow> client_names (unat (Uint16 c0 c1)) body
      | _ \<Rightarrow> None)"

definition client_data_row :: "byte list \<Rightarrow> byte list list option" where
  "client_data_row msg =
     (case client_frame 0x44 msg of
        Some (c0 # c1 # body) \<Rightarrow> client_values (unat (Uint16 c0 c1)) body
      | _ \<Rightarrow> None)"

section \<open>The handshake\<close>

lemma sint_minus4:
  assumes "sint (w :: 32 word) = int n + 4"
  shows "sint (w - 4) = int n"
proof -
  have "sint w < 2 ^ 31" using sint_lt [of w] by simp
  with assms have "int n < 2 ^ 31" by simp
  then have "signed_take_bit 31 (int n) = int n"
    by (simp add: signed_take_bit_int_eq_self)
  with assms show ?thesis by (simp add: sint_word_diff)
qed

lemma ReadInt32_bytes:
  "inp pg = b0 # b1 # b2 # b3 # rest \<Longrightarrow>
   ReadInt32 pg = (Inr (Uint32 b0 b1 b2 b3), pg\<lparr>inp := rest\<rparr>)"
  by (simp add: ReadInt32_def)

lemma CopyN_exact:
  "inp pg = buf @ rest \<Longrightarrow> n = int (length buf) \<Longrightarrow>
   CopyN n pg = ((buf, n, None), pg\<lparr>inp := rest\<rparr>)"
  by (auto simp: CopyN_def)

lemma Startup_message:
  assumes i: "inp pg = l0 # l1 # l2 # l3 # m0 # m1 # m2 # m3 # params @ rest"
    and l: "sint (Uint32 l0 l1 l2 l3) = int (length params) + 8"
  shows "Startup pg =
     (let protocolVersion = Uint32 m0 m1 m2 m3; pg2 = pg\<lparr>inp := rest\<rparr> in
      if protocolVersion = SSLRequest then
        (case Write [0x4E] pg2 of
           (Inl err, pg3) \<Rightarrow> (Inl err, pg3)
         | (Inr _, pg3) \<Rightarrow> (Inr False, pg3))
      else if protocolVersion = StartupMessage then (Inr True, pg2)
      else (Inl (UnknownProtocolVersion protocolVersion), pg2))"
proof -
  let ?buf = "m0 # m1 # m2 # m3 # params"
  let ?pg1 = "pg\<lparr>inp := m0 # m1 # m2 # m3 # params @ rest\<rparr>"
  have r: "ReadInt32 pg = (Inr (Uint32 l0 l1 l2 l3), ?pg1)"
    using i by (simp add: ReadInt32_def)
  have c: "sint (Uint32 l0 l1 l2 l3 - 4) = 4 + int (length params)"
    using sint_minus4 [of "Uint32 l0 l1 l2 l3" "4 + length params"] l by simp
  have n: "CopyN (4 + int (length params)) ?pg1 =
      ((?buf, 4 + int (length params), None), pg\<lparr>inp := rest\<rparr>)"
    using CopyN_exact [of ?pg1 ?buf rest] by simp
  show ?thesis
    by (simp add: Startup_def r c n Read_uint32_def Let_def)
qed

lemma Write_ok: "can_write (length b) pg \<Longrightarrow> Write b pg = (Inr (length b), wrote b pg)"
  by (auto simp: Write_def can_write_def split: option.splits)

lemma can_write_inp [simp]: "can_write n (pg\<lparr>inp := i\<rparr>) = can_write n pg"
  by (simp add: can_write_def)

lemma wrote_inp: "wrote b (pg\<lparr>inp := i\<rparr>) = (wrote b pg)\<lparr>inp := i\<rparr>"
  by (simp add: wrote_def)

text \<open>
  Claim C5. A startup message is its four length bytes, the four bytes of the magic field
  and the parameter region; its declared length is the whole of it. When the magic field
  is the normal-startup constant 196608, \<open>Startup\<close> reports ready with no error, has
  consumed the message and nothing after it (the unread input is what followed the
  message), and has written nothing, whatever the bytes of the parameter region are:
  empty, null-terminated strings, or bytes with no terminator.
\<close>

theorem Startup_normal_ready:
  assumes "inp pg = l0 # l1 # l2 # l3 # m0 # m1 # m2 # m3 # params @ rest"
    and "sint (Uint32 l0 l1 l2 l3) = int (length params) + 8"
    and "Uint32 m0 m1 m2 m3 = StartupMessage"
  shows "Startup pg = (Inr True, pg\<lparr>inp := rest\<rparr>)"
  using Startup_message [OF assms(1,2)] assms(3)
  by (simp add: StartupMessage_def SSLRequest_def)

theorem Startup_normal_ready_witness:
  "Startup \<lparr>inp = [0, 0, 0, 14, 0, 3, 0, 0, 0x75, 0, 0x61, 0, 0, 0x7A, 0x51], out = [], wcap = Some 0\<rparr>
     = (Inr True, \<lparr>inp = [0x51], out = [], wcap = Some 0\<rparr>)"
  using Startup_normal_ready [of "\<lparr>inp = [0, 0, 0, 14, 0, 3, 0, 0, 0x75, 0, 0x61, 0, 0, 0x7A, 0x51], out = [], wcap = Some 0\<rparr>"
      0 0 0 14 0 3 0 0 "[0x75, 0, 0x61, 0, 0, 0x7A]" "[0x51]"]
  by (simp add: Uint32_def StartupMessage_def)

text \<open>
  Claim C6. When the magic field is the SSL-negotiation constant 80877103 and the
  transport takes one byte, \<open>Startup\<close> writes the single byte \<open>N\<close>, consumes the message
  and reports not ready with no error; the first loop of the session then calls \<open>Startup\<close>
  again on what follows.
\<close>

theorem Startup_SSLRequest_refused:
  assumes "inp pg = l0 # l1 # l2 # l3 # m0 # m1 # m2 # m3 # extra @ rest"
    and "sint (Uint32 l0 l1 l2 l3) = int (length extra) + 8"
    and "Uint32 m0 m1 m2 m3 = SSLRequest"
    and "can_write 1 pg"
  shows "Startup pg = (Inr False, pg\<lparr>inp := rest, out := out pg @ [0x4E],
                                      wcap := map_option (\<lambda>c. c - 1) (wcap pg)\<rparr>)
       \<and> startup_loop pg = startup_loop (pg\<lparr>inp := rest, out := out pg @ [0x4E],
                                      wcap := map_option (\<lambda>c. c - 1) (wcap pg)\<rparr>)"
proof -
  have w: "Write [0x4E] (pg\<lparr>inp := rest\<rparr>) = (Inr 1, wrote [0x4E] (pg\<lparr>inp := rest\<rparr>))"
    using Write_ok [of "[0x4E]" "pg\<lparr>inp := rest\<rparr>"] assms(4) by simp
  have s: "Startup pg = (Inr False, wrote [0x4E] (pg\<lparr>inp := rest\<rparr>))"
    using Startup_message [OF assms(1,2)] assms(3) by (simp add: w)
  have "startup_loop pg = startup_loop (wrote [0x4E] (pg\<lparr>inp := rest\<rparr>))"
    by (subst startup_loop.simps) (simp add: s)
  with s show ?thesis by (simp add: wrote_def)
qed

theorem Startup_SSLRequest_refused_witness:
  "Startup \<lparr>inp = [0, 0, 0, 8, 4, 0xD2, 0x16, 0x2F, 0, 0, 0, 8, 0, 3, 0, 0], out = [], wcap = None\<rparr>
     = (Inr False, \<lparr>inp = [0, 0, 0, 8, 0, 3, 0, 0], out = [0x4E], wcap = None\<rparr>)
   \<and> startup_loop \<lparr>inp = [0, 0, 0, 8, 4, 0xD2, 0x16, 0x2F, 0, 0, 0, 8, 0, 3, 0, 0], out = [], wcap = None\<rparr>
     = (None, \<lparr>inp = [], out = [0x4E], wcap = None\<rparr>)"
proof -
  have "startup_loop \<lparr>inp = [0, 0, 0, 8, 0, 3, 0, 0], out = [0x4E], wcap = None\<rparr>
      = (None, \<lparr>inp = [], out = [0x4E], wcap = None\<rparr>)"
    by code_simp
  then show ?thesis
    using Startup_SSLRequest_refused [of
        "\<lparr>inp = [0, 0, 0, 8, 4, 0xD2, 0x16, 0x2F, 0, 0, 0, 8, 0, 3, 0, 0], out = [], wcap = None\<rparr>"
        0 0 0 8 4 "0xD2" "0x16" "0x2F" "[]" "[0, 0, 0, 8, 0, 3, 0, 0]"]
    by (simp add: Uint32_def SSLRequest_def can_write_def)
qed

text \<open>
  Claim C7. When the magic field is neither constant, \<open>Startup\<close> returns the error
  "unknown protocol version" and does not report ready; \<open>Loop\<close> returns that error, and
  the connection has been written nothing: no authentication-ok.
\<close>

theorem Startup_unknown_magic_fatal:
  assumes "inp pg = l0 # l1 # l2 # l3 # m0 # m1 # m2 # m3 # extra @ rest"
    and "sint (Uint32 l0 l1 l2 l3) = int (length extra) + 8"
    and "Uint32 m0 m1 m2 m3 \<noteq> StartupMessage"
    and "Uint32 m0 m1 m2 m3 \<noteq> SSLRequest"
  shows "Startup pg = (Inl (UnknownProtocolVersion (Uint32 m0 m1 m2 m3)), pg\<lparr>inp := rest\<rparr>)
       \<and> Loop rg pg = (Some (UnknownProtocolVersion (Uint32 m0 m1 m2 m3)), pg\<lparr>inp := rest\<rparr>)"
proof -
  have s: "Startup pg = (Inl (UnknownProtocolVersion (Uint32 m0 m1 m2 m3)), pg\<lparr>inp := rest\<rparr>)"
    using Startup_message [OF assms(1,2)] assms(3,4) by simp
  have "startup_loop pg = (Some (UnknownProtocolVersion (Uint32 m0 m1 m2 m3)), pg\<lparr>inp := rest\<rparr>)"
    by (subst startup_loop.simps) (simp add: s)
  then show ?thesis using s by (simp add: Loop_def)
qed

theorem Startup_unknown_magic_fatal_witness:
  "Startup \<lparr>inp = [0, 0, 0, 8, 0, 2, 0, 0, 0x51], out = [], wcap = None\<rparr>
     = (Inl (UnknownProtocolVersion 131072), \<lparr>inp = [0x51], out = [], wcap = None\<rparr>)
   \<and> Loop (\<lambda>k. id) \<lparr>inp = [0, 0, 0, 8, 0, 2, 0, 0, 0x51], out = [], wcap = None\<rparr>
     = (Some (UnknownProtocolVersion 131072), \<lparr>inp = [0x51], out = [], wcap = None\<rparr>)"
  using Startup_unknown_magic_fatal [of
      "\<lparr>inp = [0, 0, 0, 8, 0, 2, 0, 0, 0x51], out = [], wcap = None\<rparr>"
      0 0 0 8 0 2 0 0 "[]" "[0x51]" "\<lambda>k. id"]
  by (simp add: Uint32_def SSLRequest_def StartupMessage_def)

section \<open>The query loop\<close>





section \<open>Frames and data rows\<close>

text \<open>\<open>Uint32\<close> reads back what \<open>PutUint32\<close> writes: the four bytes are big-endian.\<close>

lemma Uint32_PutUint32: "PutUint32 w = [a, b, c, d] \<Longrightarrow> Uint32 a b c d = w"
  apply (simp add: PutUint32_def Uint32_def)
  apply (rule bit_word_eqI)
  subgoal for n
    by (cases "n < 8"; cases "n < 16"; cases "n < 24") (auto simp: bit_simps)
  done

lemma sint_of_nat32:
  assumes "n < 2 ^ 31"
  shows "sint (word_of_nat n :: 32 word) = int n"
proof -
  have "sint (word_of_int (int n) :: 32 word) = signed_take_bit 31 (int n)"
    by (simp only: sint_sbintrunc') simp
  moreover have "signed_take_bit 31 (int n) = int n"
    using assms by (simp add: signed_take_bit_int_eq_self)
  ultimately show ?thesis by simp
qed

lemma write_parts_append:
  "write_parts (xs @ ys) buf = write_parts ys (write_parts xs buf)"
  by (induction xs arbitrary: buf) simp_all

lemma write_parts_bytes: "write_parts (map GByte bs) buf = buf @ bs"
  by (induction bs arbitrary: buf) simp_all

lemma write_parts_encodable:
  "list_all encodable ps \<Longrightarrow> write_parts ps buf = buf @ serialized ps"
  by (induction ps arbitrary: buf) (auto simp: encodable_def serialized_def)

lemma DataRow_loop_parts:
  "DataRow_loop es parts =
     parts @ concat (map (\<lambda>(k, v). GInt32 (word_of_nat (length (vb v))) # map GByte (vb v)) es)"
  by (induction es arbitrary: parts) auto

lemma write_parts_DataRow:
  "write_parts
     (concat (map (\<lambda>(k, v). GInt32 (word_of_nat (length (vb v))) # map GByte (vb v)) es)) buf
   = buf @ value_fields es"
  by (induction es arbitrary: buf)
     (auto simp: value_fields_def value_field_def write_parts_append write_parts_bytes)

lemma msgBuf_DataRow:
  "msgBuf (DataRow_loop es [GByte 0x44, GInt16 n]) =
     Inr (0x44 # PutUint32 (word_of_nat (length (value_fields es) + 6))
            @ PutUint16 n @ value_fields es)"
proof -
  let ?ps = "concat (map (\<lambda>(k, v). GInt32 (word_of_nat (length (vb v))) # map GByte (vb v)) es)"
  have c: "write_parts (GInt16 n # ?ps) [] = PutUint16 n @ value_fields es"
    by (simp add: write_parts_DataRow)
  have l: "length (PutUint16 n @ value_fields es) + 4 = length (value_fields es) + 6"
    by (simp add: PutUint16_def)
  have "msgBuf (GByte 0x44 # GInt16 n # ?ps) =
      Inr (0x44 # PutUint32 (word_of_nat (length (PutUint16 n @ value_fields es) + 4))
             @ PutUint16 n @ value_fields es)"
    unfolding msgBuf_def by (simp only: c list.case any.case Let_def)
  then show ?thesis
    by (simp only: l DataRow_loop_parts append_Cons append_Nil)
qed

text \<open>
  Claim C4, as amended. \<open>WriteMessage\<close> on a tag byte and encodable fields whose
  serialization, with the four bytes of the length, stays below \<open>2 ^ 31\<close> bytes hands the
  connection the tag byte, the four big-endian bytes of the length, and the fields
  serialized in order; the length, read as the \<open>int32\<close> it is, is four plus the number of
  bytes after it.
\<close>

theorem WriteMessage_frame:
  assumes "list_all encodable ps" and "length (serialized ps) + 4 < 2 ^ 31"
  shows "WriteMessage (GByte tag # ps) pg =
           Write (tag # PutUint32 (word_of_nat (length (serialized ps) + 4)) @ serialized ps) pg
       \<and> sint (word_of_nat (length (serialized ps) + 4) :: 32 word)
           = 4 + int (length (serialized ps))"
  using assms sint_of_nat32 [of "length (serialized ps) + 4"]
  by (simp add: WriteMessage_def msgBuf_def write_parts_encodable Let_def)

theorem WriteMessage_frame_witness:
  "WriteMessage [GByte 0x52, GInt32 0] \<lparr>inp = [], out = [], wcap = None\<rparr>
     = Write [0x52, 0, 0, 0, 8, 0, 0, 0, 0] \<lparr>inp = [], out = [], wcap = None\<rparr>"
  using WriteMessage_frame [of "[GInt32 0]" "0x52" "\<lparr>inp = [], out = [], wcap = None\<rparr>"]
  by (simp add: encodable_def serialized_def PutUint32_def)

text \<open>
  The claim as stated, for every sequence of encodable fields, fails where the payload
  and the length field together need \<open>2 ^ 31\<close> bytes: \<open>int32(len(contents)+4)\<close> wraps, and
  the declared length of a payload of 2147483644 bytes is \<open>-2147483648\<close>.
\<close>

theorem WriteMessage_frame_counterexample:
  "msgBuf (GByte 0x44 # replicate 2147483644 (GByte 0)) =
     Inr (0x44 # [0x80, 0, 0, 0] @ replicate 2147483644 0)
   \<and> sint (Uint32 0x80 0 0 0) \<noteq> 4 + int (length (replicate 2147483644 (0 :: byte)))"
proof -
  have r: "replicate 2147483644 (GByte 0) = map GByte (replicate 2147483644 0)"
    by (simp only: map_replicate)
  have w: "write_parts (replicate 2147483644 (GByte 0)) [] = replicate 2147483644 0"
    by (simp only: r write_parts_bytes append_Nil)
  have l: "length (replicate 2147483644 (0 :: byte)) = 2147483644"
    by (simp only: length_replicate)
  have p: "PutUint32 (word_of_nat (2147483644 + 4)) = [0x80, 0, 0, 0]"
    by (simp add: PutUint32_def)
  have m: "msgBuf (GByte 0x44 # replicate 2147483644 (GByte 0)) =
      Inr (0x44 # PutUint32 (word_of_nat (length (replicate 2147483644 (0 :: byte)) + 4))
             @ replicate 2147483644 0)"
    unfolding msgBuf_def by (simp only: w list.case any.case Let_def)
  have s: "sint (Uint32 0x80 0 0 0) = - 2147483648"
    by (simp add: Uint32_def)
  have d: "(- 2147483648 :: int) \<noteq> 4 + int 2147483644"
    by simp
  from m have "msgBuf (GByte 0x44 # replicate 2147483644 (GByte 0)) =
      Inr (0x44 # [0x80, 0, 0, 0] @ replicate 2147483644 0)"
    by (simp only: l p)
  moreover have "sint (Uint32 0x80 0 0 0) \<noteq> 4 + int (length (replicate 2147483644 (0 :: byte)))"
    by (simp only: l s d not_False_eq_True)
  ultimately show ?thesis by (rule conjI)
qed

text \<open>
  Claim C3, as amended. For a text value \<open>s\<close> of fewer than \<open>2 ^ 31 - 1\<close> bytes at any place
  of the order in which \<open>DataRow\<close> visits the row, the data-row message is the tag \<open>D\<close>, the
  message length, the field count and the value fields in that order, where the field of
  \<open>s\<close> is a four-byte length, the bytes of \<open>s\<close> unchanged (whatever they are, ASCII or
  not) and one null byte; the length, read as an \<open>int32\<close>, is the byte count of \<open>s\<close> plus
  one.
\<close>

theorem DataRow_text_value:
  assumes "visit row = pre @ (k, GString s) # post" and "length s + 1 < 2 ^ 31"
  shows "DataRow visit row pg =
           Write (0x44 # PutUint32 (word_of_nat (length (value_fields (visit row)) + 6))
                    @ PutUint16 (word_of_nat (length row)) @ value_fields (visit row)) pg
       \<and> value_fields (visit row) =
           value_fields pre @ PutUint32 (word_of_nat (length s + 1)) @ s @ [0] @ value_fields post
       \<and> sint (word_of_nat (length s + 1) :: 32 word) = int (length s) + 1"
  using assms sint_of_nat32 [of "length s + 1"]
  by (simp add: DataRow_def WriteMessage_def msgBuf_DataRow value_fields_def value_field_def vb_def)

theorem DataRow_text_value_witness:
  "DataRow id [([0x61], GInt32 1), ([0x62], GString [0xC3, 0xA9])]
       \<lparr>inp = [], out = [], wcap = None\<rparr>
     = Write [0x44, 0, 0, 0, 21, 0, 2, 0, 0, 0, 4, 0, 0, 0, 1, 0, 0, 0, 3, 0xC3, 0xA9, 0]
         \<lparr>inp = [], out = [], wcap = None\<rparr>"
  using DataRow_text_value [of id "[([0x61], GInt32 1), ([0x62], GString [0xC3, 0xA9])]"
      "[([0x61], GInt32 1)]" "[0x62]" "[0xC3, 0xA9]" "[]" "\<lparr>inp = [], out = [], wcap = None\<rparr>"]
  by (simp add: value_fields_def value_field_def vb_def PutUint32_def PutUint16_def)

text \<open>
  The claim as stated, for every text value, fails for a string of \<open>2 ^ 31 - 1\<close> bytes:
  \<open>int32(vb.Len())\<close> wraps and the declared length is \<open>-2147483648\<close>.
\<close>

theorem DataRow_text_value_counterexample:
  "msgBuf (DataRow_loop [([0x62], GString (replicate 2147483647 0x41))] [GByte 0x44, GInt16 1]) =
     Inr (0x44 # [0x80, 0, 0, 0x0A] @ [0, 1] @ [0x80, 0, 0, 0] @ replicate 2147483647 0x41 @ [0])
   \<and> sint (Uint32 0x80 0 0 0) \<noteq> int (length (replicate 2147483647 (0x41 :: byte))) + 1"
proof -
  define big :: "byte list" where "big = replicate 2147483647 0x41"
  have l: "length big = 2147483647"
    unfolding big_def by (simp only: length_replicate)
  have v: "value_fields [([0x62], GString big)] = [0x80, 0, 0, 0] @ big @ [0]"
    by (simp add: value_fields_def value_field_def vb_def l PutUint32_def)
  have n: "length (value_fields [([0x62], GString big)]) + 6 = 2147483658"
    by (simp add: v l)
  have p: "PutUint32 (word_of_nat 2147483658) = [0x80, 0, 0, 0x0A]"
    by (simp add: PutUint32_def)
  have "msgBuf (DataRow_loop [([0x62], GString big)] [GByte 0x44, GInt16 1]) =
      Inr (0x44 # [0x80, 0, 0, 0x0A] @ [0, 1] @ [0x80, 0, 0, 0] @ big @ [0])"
    by (simp only: msgBuf_DataRow n p) (simp add: v PutUint16_def)
  moreover have "sint (Uint32 0x80 0 0 0) \<noteq> int (length big) + 1"
    by (simp add: l Uint32_def)
  ultimately show ?thesis
    unfolding big_def by (rule conjI)
qed

section \<open>Where the code departs from the specification\<close>

text \<open>
  Claim C2. The row \<open>{a: 1}\<close> of \<open>Loop\<close> holds the \<open>int\<close> 1. \<open>binary.Write\<close> rejects an
  \<open>int\<close>, \<open>DataRow\<close> drops the error, and the data row carries the value with the declared
  length 0 and no bytes, where the claim has the length 4 and the bytes 00 00 00 01.
\<close>

theorem DataRow_int_value_empty:
  "DataRow id [([0x61], GInt 1)] \<lparr>inp = [], out = [], wcap = None\<rparr>
     = (Inr 11, \<lparr>inp = [], out = [0x44, 0, 0, 0, 10, 0, 1, 0, 0, 0, 0], wcap = None\<rparr>)"
  by code_simp

text \<open>
  Claim C9. A startup message that declares the length 20 and is followed by 10 bytes
  before the stream ends: \<open>Startup\<close> returns the bare \<open>EOF\<close> of \<open>io.CopyN\<close>, which names no
  byte counts; its check \<open>n != contentLength\<close> comes after the return on that error.
  \<open>ReadQuery\<close>, which does not return on the error of \<open>io.CopyN\<close>, reports the same short
  read as a buffer underflow of 10 bytes read where 16 were expected.
\<close>

theorem Startup_short_read_EOF:
  "Startup \<lparr>inp = [0, 0, 0, 20, 0, 3, 0, 0, 0x75, 0x73, 0x65, 0x72, 0, 0x61], out = [], wcap = None\<rparr>
     = (Inl EOF, \<lparr>inp = [], out = [], wcap = None\<rparr>)
   \<and> ReadQuery \<lparr>inp = [0x51, 0, 0, 0, 20, 0, 3, 0, 0, 0x75, 0x73, 0x65, 0x72, 0, 0x61], out = [], wcap = None\<rparr>
     = (Inl (BufferUnderflow 10 16), \<lparr>inp = [], out = [], wcap = None\<rparr>)"
  by code_simp

text \<open>
  Claim C1. The result set of one row \<open>{a: 1, b: "B1", c: "C1"}\<close>. \<open>RowDescription\<close> names
  the columns in the order its loop visits the map, here \<open>a\<close>, \<open>b\<close>, \<open>c\<close>; \<open>DataRow\<close> runs a
  loop of its own over the map, and when that loop starts one entry later the client
  reads the values \<open>"B1"\<close>, \<open>"C1"\<close> and an empty value under the columns \<open>a\<close>, \<open>b\<close>, \<open>c\<close>.
  When both loops visit the map in the same order, the value of \<open>a\<close> still arrives empty.
\<close>

theorem result_set_round_trip_fails:
  "client_row_description (out (snd (RowDescription id
       [[([0x61], GInt 1), ([0x62], GString [0x42, 0x31]), ([0x63], GString [0x43, 0x31])]]
       \<lparr>inp = [], out = [], wcap = None\<rparr>)))
     = Some [[0x61], [0x62], [0x63]]
   \<and> client_data_row (out (snd (DataRow (rotate 1)
       [([0x61], GInt 1), ([0x62], GString [0x42, 0x31]), ([0x63], GString [0x43, 0x31])]
       \<lparr>inp = [], out = [], wcap = None\<rparr>)))
     = Some [[0x42, 0x31, 0], [0x43, 0x31, 0], []]
   \<and> client_data_row (out (snd (DataRow id
       [([0x61], GInt 1), ([0x62], GString [0x42, 0x31]), ([0x63], GString [0x43, 0x31])]
       \<lparr>inp = [], out = [], wcap = None\<rparr>)))
     = Some [[], [0x42, 0x31, 0], [0x43, 0x31, 0]]"
  by code_simp

text \<open>
  Claim C10. The same client bytes (a startup message, the query \<open>SELECT 1\<close>, terminate)
  and the same result data, under two choices of the orders in which the \<open>range\<close> loops
  visit the maps: in the first every loop visits \<open>a\<close>, \<open>b\<close>, \<open>c\<close>; in the second each loop
  starts one entry later than the loop before it (each order is a permutation of the
  entries, as the language allows). The session writes different bytes, and
  in the second run the values of the data rows are not in the order of the columns of
  the row description.
\<close>

theorem Loop_output_varies_with_map_order:
  "Loop (\<lambda>k. id)
       \<lparr>inp = [0, 0, 0, 8, 0, 3, 0, 0, 0x51, 0, 0, 0, 12, 0x53, 0x45, 0x4C, 0x45, 0x43, 0x54, 0x20, 0x31, 0x58],
         out = [], wcap = None\<rparr>
     = (None, \<lparr>inp = [], out =
          [0x52, 0, 0, 0, 8, 0, 0, 0, 0,
           0x5A, 0, 0, 0, 5, 0x49,
           0x54, 0, 0, 0, 66, 0, 3,
             0x61, 0, 0, 0, 0, 0, 0, 0, 0, 0, 0, 0, 255, 255, 0, 0, 0, 0, 0, 0,
             0x62, 0, 0, 0, 0, 0, 0, 0, 0, 0, 0, 0, 255, 255, 0, 0, 0, 0, 0, 0,
             0x63, 0, 0, 0, 0, 0, 0, 0, 0, 0, 0, 0, 255, 255, 0, 0, 0, 0, 0, 0,
           0x44, 0, 0, 0, 24, 0, 3, 0, 0, 0, 0, 0, 0, 0, 3, 0x42, 0x31, 0, 0, 0, 0, 3, 0x43, 0x31, 0,
           0x44, 0, 0, 0, 24, 0, 3, 0, 0, 0, 0, 0, 0, 0, 3, 0x42, 0x32, 0, 0, 0, 0, 3, 0x43, 0x32, 0,
           0x43, 0, 0, 0, 9, 0x77, 0x68, 0x61, 0x74, 0,
           0x5A, 0, 0, 0, 5, 0x49],
          wcap = None\<rparr>)
   \<and> Loop rotate
       \<lparr>inp = [0, 0, 0, 8, 0, 3, 0, 0, 0x51, 0, 0, 0, 12, 0x53, 0x45, 0x4C, 0x45, 0x43, 0x54, 0x20, 0x31, 0x58],
         out = [], wcap = None\<rparr>
     = (None, \<lparr>inp = [], out =
          [0x52, 0, 0, 0, 8, 0, 0, 0, 0,
           0x5A, 0, 0, 0, 5, 0x49,
           0x54, 0, 0, 0, 66, 0, 3,
             0x61, 0, 0, 0, 0, 0, 0, 0, 0, 0, 0, 0, 255, 255, 0, 0, 0, 0, 0, 0,
             0x62, 0, 0, 0, 0, 0, 0, 0, 0, 0, 0, 0, 255, 255, 0, 0, 0, 0, 0, 0,
             0x63, 0, 0, 0, 0, 0, 0, 0, 0, 0, 0, 0, 255, 255, 0, 0, 0, 0, 0, 0,
           0x44, 0, 0, 0, 24, 0, 3, 0, 0, 0, 3, 0x42, 0x31, 0, 0, 0, 0, 3, 0x43, 0x31, 0, 0, 0, 0, 0,
           0x44, 0, 0, 0, 24, 0, 3, 0, 0, 0, 3, 0x43, 0x32, 0, 0, 0, 0, 0, 0, 0, 0, 3, 0x42, 0x32, 0,
           0x43, 0, 0, 0, 9, 0x77, 0x68, 0x61, 0x74, 0,
           0x5A, 0, 0, 0, 5, 0x49],
          wcap = None\<rparr>)"
  by code_simp

section \<open>Further properties\<close>

text \<open>
  A value of a fixed-size integer type is written as the specification says: the data row
  of one \<open>int32\<close> carries the declared length 4 and the four big-endian bytes of the value,
  and likewise 2 bytes for an \<open>int16\<close> and 8 for an \<open>int64\<close>.
\<close>

theorem fixed_size_value_field:
  "msgBuf (DataRow_loop [(k, GInt32 w)] [GByte 0x44, GInt16 1])
     = Inr ([0x44, 0, 0, 0, 14, 0, 1, 0, 0, 0, 4] @ PutUint32 w)
   \<and> msgBuf (DataRow_loop [(k, GInt16 v)] [GByte 0x44, GInt16 1])
     = Inr ([0x44, 0, 0, 0, 12, 0, 1, 0, 0, 0, 2] @ PutUint16 v)
   \<and> msgBuf (DataRow_loop [(k, GInt64 u)] [GByte 0x44, GInt16 1])
     = Inr ([0x44, 0, 0, 0, 18, 0, 1, 0, 0, 0, 8] @ PutUint64 u)"
  by (simp add: msgBuf_def PutUint32_def PutUint16_def PutUint64_def vb_def)

text \<open>
  \<open>Startup\<close> returns its buffer-underflow error only when the content length, the
  declared length minus four in \<open>int32\<close> arithmetic, is negative and nothing was read:
  never for a stream that ends before the declared length.
\<close>

theorem Startup_underflow_only_negative:
  assumes "Startup pg = (Inl (BufferUnderflow n c), pg')"
  shows "n = 0 \<and> c < 0"
proof -
  obtain w pg1 where r: "ReadInt32 pg = (Inr w, pg1)"
    using assms
    by (cases "ReadInt32 pg")
       (auto simp: Startup_def ReadInt32_def split: sum.splits list.splits)
  show ?thesis
    using assms r
    by (auto simp: Startup_def Let_def CopyN_def Read_uint32_def Write_def
        split: prod.splits sum.splits option.splits if_splits list.splits)
qed

theorem Startup_underflow_only_negative_witness:
  "Startup \<lparr>inp = [0, 0, 0, 0, 1, 2], out = [], wcap = None\<rparr>
     = (Inl (BufferUnderflow 0 (- 4)), \<lparr>inp = [1, 2], out = [], wcap = None\<rparr>)
   \<and> (0 :: int) = 0 \<and> (- 4 :: int) < 0"
  using Startup_underflow_only_negative [of "\<lparr>inp = [0, 0, 0, 0, 1, 2], out = [], wcap = None\<rparr>"
      0 "- 4" "\<lparr>inp = [1, 2], out = [], wcap = None\<rparr>"]
  by (simp add: Startup_def ReadInt32_def CopyN_def Uint32_def)

end
